theory Spec2Isabelle
  imports Complex_Main "HOL-Library.AList"
begin

section \<open>Values of the JavaScript program\<close>

text \<open>
  The server (the module with the two route handlers and \<open>saveSnapshots\<close>) handles parsed
  JSON throughout: the task descriptors and the snapshot payloads of the remote API, and the
  metadata records it writes and reads back. A JSON object lists its properties in
  enumeration order, each key once (keys that are array indices, which JavaScript lists
  first, are not set apart). \<open>undefined\<close> is \<open>None\<close> of \<open>json option\<close>.
\<close>

datatype json =
    JNull
  | JBool bool
  | JNum real
  | JStr string
  | JArr "json list"
  | JObj "(string \<times> json) list"

text \<open>JavaScript truthiness of a JSON value: \<open>null\<close>, \<open>false\<close>, \<open>0\<close> and \<open>""\<close> are falsy.\<close>

fun truthy :: "json \<Rightarrow> bool" where
  "truthy JNull = False"
| "truthy (JBool b) = b"
| "truthy (JNum n) = (n \<noteq> 0)"
| "truthy (JStr s) = (s \<noteq> [])"
| "truthy (JArr xs) = True"
| "truthy (JObj kvs) = True"

text \<open>\<open>a || b\<close> where \<open>a\<close> may be \<open>undefined\<close>.\<close>

definition or_else :: "json option \<Rightarrow> json \<Rightarrow> json" where
  "or_else a b = (case a of None \<Rightarrow> b | Some v \<Rightarrow> if truthy v then v else b)"

text \<open>A value that is neither \<open>undefined\<close> nor falsy.\<close>

definition present :: "json option \<Rightarrow> bool" where
  "present a = (case a of None \<Rightarrow> False | Some v \<Rightarrow> truthy v)"

text \<open>
  \<open>v.k\<close> for a value \<open>v\<close> that is not \<open>null\<close> and one of the keys the program reads
  (\<open>id\<close>, \<open>name\<close>, \<open>visualization\<close>, \<open>imageAvailable\<close>, \<open>snapshotAvailable\<close>, \<open>displayMode\<close>):
  the property of an object, \<open>undefined\<close> on a number, boolean, string or array.
\<close>

definition get_prop :: "json \<Rightarrow> string \<Rightarrow> json option" where
  "get_prop v k = (case v of JObj kvs \<Rightarrow> map_of kvs k | _ \<Rightarrow> None)"

datatype error = RemoteError | FsError | TypeError | SyntaxError

text \<open>\<open>String.prototype.toLowerCase\<close> and \<open>String.prototype.includes\<close> on header values (ASCII).\<close>

definition lower_char :: "char \<Rightarrow> char" where
  "lower_char c =
     (case map_of (zip ''ABCDEFGHIJKLMNOPQRSTUVWXYZ'' ''abcdefghijklmnopqrstuvwxyz'') c of
        None \<Rightarrow> c
      | Some l \<Rightarrow> l)"

definition toLowerCase :: "string \<Rightarrow> string" where
  "toLowerCase s = map lower_char s"

fun startsWith :: "string \<Rightarrow> string \<Rightarrow> bool" where
  "startsWith s [] = True"
| "startsWith [] (p # ps) = False"
| "startsWith (c # cs) (p # ps) = (c = p \<and> startsWith cs ps)"

fun str_includes :: "string \<Rightarrow> string \<Rightarrow> bool" where
  "str_includes [] sub = (sub = [])"
| "str_includes (c # cs) sub = (startsWith (c # cs) sub \<or> str_includes cs sub)"

section \<open>The remote collaborator\<close>

text \<open>
  A task descriptor (\<open>t.data\<close> of \<open>getSharingTask\<close>): \<open>id\<close> and \<open>name\<close> are strings, the
  other properties are kept as they come.
\<close>

record task =
  task_id :: string
  task_name :: string
  task_details :: "(string \<times> json) list"


type_synonym bytes = string

text \<open>The \<open>data\<close> of a file response: parsed JSON, a \<open>Blob\<close> or a \<open>Buffer\<close>.\<close>

datatype payload = Json json | Blob bytes | Buffer bytes

record response =
  status :: int
  content_type :: "string option"
  data :: payload

section \<open>The artifact store\<close>

text \<open>
  \<open>public/snapshots\<close>: \<open>None\<close> when the directory does not exist, otherwise its entries,
  each under its name (names are compared as strings), in the order in which the model
  lets \<open>fs.readdir\<close> list them; the order of a real file system is its own, and the
  general statements below are about the entries listed, not their order.
  An entry is a plain file or a directory of named files. The operations below take the
  name of an entry directly under the root: they are what the code does for a task whose
  id is a single path component (\<open>path_component\<close>), and the statements whose truth of
  the code depends on that assume it.
  A file holds text that \<open>JSON.parse\<close> accepts (\<open>JsonText j\<close>, the text \<open>JSON.stringify\<close>
  gives for \<open>j\<close>) or anything else (\<open>Raw\<close>). The program parses \<open>metadata.json\<close> files only,
  and writes them as \<open>JsonText\<close> only.
\<close>

datatype content = JsonText json | Raw bytes

datatype node = File | Dir "(string \<times> content) list"

type_synonym store = "(string \<times> node) list option"

datatype fs_op = Access | Mkdir | WriteFile | Rm | ReadFile | Readdir

text \<open>
  The environment of one request: the answers of the remote API (the same answer to the
  same call throughout the request), the result of \<open>Buffer.from\<close> on a value that is
  neither a \<open>Blob\<close> nor a \<open>Buffer\<close>, and the file-system operations that fail for a
  reason outside the store (permissions, a busy file, a full disk): \<open>fs_fault op p\<close> for
  the path \<open>p\<close> below \<open>public/snapshots\<close> (\<open>[]\<close> is the root). A failing operation
  leaves the store as it was (a real removal may also fail half way; the general statements
  about a removal assume that it does not fail).
\<close>

record env =
  getItems :: "error + string list"
  getSharingTask :: "string \<Rightarrow> error + task"
  getSharingTaskExecutionFile :: "string \<Rightarrow> string \<Rightarrow> string \<Rightarrow> error + response"
  Buffer_from :: "json \<Rightarrow> error + bytes"
  fs_fault :: "fs_op \<Rightarrow> string list \<Rightarrow> bool"

text \<open>What a path below the root names: the first entry of that name.\<close>

definition node_at :: "store \<Rightarrow> string \<Rightarrow> node option" where
  "node_at st name = (case st of None \<Rightarrow> None | Some ns \<Rightarrow> map_of ns name)"

definition lookup_dir :: "store \<Rightarrow> string \<Rightarrow> (string \<times> content) list option" where
  "lookup_dir st name = (case node_at st name of Some (Dir fs) \<Rightarrow> Some fs | _ \<Rightarrow> None)"

definition file_content :: "store \<Rightarrow> string \<Rightarrow> string \<Rightarrow> content option" where
  "file_content st name file =
     (case lookup_dir st name of None \<Rightarrow> None | Some fs \<Rightarrow> map_of fs file)"

text \<open>\<open>fs.access(snapshotsDir)\<close>\<close>

definition fs_access :: "env \<Rightarrow> store \<Rightarrow> error + unit" where
  "fs_access env st =
     (if fs_fault env Access [] then Inl FsError
      else case st of None \<Rightarrow> Inl FsError | Some ns \<Rightarrow> Inr ())"

text \<open>\<open>fs.mkdir(root, {recursive: true})\<close>\<close>

definition fs_mkdir_root :: "env \<Rightarrow> store \<Rightarrow> error + store" where
  "fs_mkdir_root env st =
     (if fs_fault env Mkdir [] then Inl FsError
      else case st of None \<Rightarrow> Inr (Some []) | Some ns \<Rightarrow> Inr (Some ns))"

text \<open>
  \<open>fs.mkdir(path.join(root, name), {recursive: true})\<close> for a single path component
  \<open>name\<close>: creates the root with the directory, and fails on a plain file of that name.
\<close>

definition fs_mkdir :: "env \<Rightarrow> string \<Rightarrow> store \<Rightarrow> error + store" where
  "fs_mkdir env name st =
     (if fs_fault env Mkdir [name] then Inl FsError
      else case st of
        None \<Rightarrow> Inr (Some [(name, Dir [])])
      | Some ns \<Rightarrow>
          (case map_of ns name of
             None \<Rightarrow> Inr (Some (AList.update name (Dir []) ns))
           | Some (Dir fs) \<Rightarrow> Inr (Some ns)
           | Some File \<Rightarrow> Inl FsError))"

text \<open>\<open>fs.writeFile(path.join(root, name, file), c)\<close>\<close>

definition fs_writeFile :: "env \<Rightarrow> string \<Rightarrow> string \<Rightarrow> content \<Rightarrow> store \<Rightarrow> error + store" where
  "fs_writeFile env name file c st =
     (if fs_fault env WriteFile [name, file] then Inl FsError
      else case st of
        None \<Rightarrow> Inl FsError
      | Some ns \<Rightarrow>
          (case map_of ns name of
             Some (Dir fs) \<Rightarrow> Inr (Some (AList.update name (Dir (AList.update file c fs)) ns))
           | _ \<Rightarrow> Inl FsError))"

text \<open>\<open>fs.rm(path.join(root, name), {recursive: true})\<close>: fails when nothing is there.\<close>

definition fs_rm :: "env \<Rightarrow> string \<Rightarrow> store \<Rightarrow> error + store" where
  "fs_rm env name st =
     (if fs_fault env Rm [name] then Inl FsError
      else case st of
        None \<Rightarrow> Inl FsError
      | Some ns \<Rightarrow>
          (case map_of ns name of
             None \<Rightarrow> Inl FsError
           | Some n \<Rightarrow> Inr (Some (AList.delete name ns))))"

text \<open>\<open>fs.readFile(path.join(root, name, file), "utf8")\<close>\<close>

definition fs_readFile :: "env \<Rightarrow> string \<Rightarrow> string \<Rightarrow> store \<Rightarrow> error + content" where
  "fs_readFile env name file st =
     (if fs_fault env ReadFile [name, file] then Inl FsError
      else case file_content st name file of None \<Rightarrow> Inl FsError | Some c \<Rightarrow> Inr c)"

text \<open>\<open>fs.readdir(snapshotsDir, {withFileTypes: true})\<close>\<close>

definition fs_readdir :: "env \<Rightarrow> store \<Rightarrow> error + (string \<times> node) list" where
  "fs_readdir env st =
     (if fs_fault env Readdir [] then Inl FsError
      else case st of None \<Rightarrow> Inl FsError | Some ns \<Rightarrow> Inr ns)"

definition isDirectory :: "string \<times> node \<Rightarrow> bool" where
  "isDirectory entry = (case snd entry of Dir fs \<Rightarrow> True | File \<Rightarrow> False)"

definition JSON_parse :: "content \<Rightarrow> error + json" where
  "JSON_parse c = (case c of JsonText j \<Rightarrow> Inr j | Raw b \<Rightarrow> Inl SyntaxError)"

text \<open>
  \<open>JSON.stringify(data, null, 2)\<close>: a \<open>Blob\<close> has no enumerable property of its own, a
  \<open>Buffer\<close> has a \<open>toJSON\<close>.
\<close>

definition JSON_stringify :: "payload \<Rightarrow> content" where
  "JSON_stringify p =
     (case p of
        Json j \<Rightarrow> JsonText j
      | Blob b \<Rightarrow> JsonText (JObj [])
      | Buffer b \<Rightarrow>
          JsonText (JObj [(''type'', JStr ''Buffer''),
                          (''data'', JArr (map (\<lambda>c. JNum (real (of_char c))) b))]))"

text \<open>What is on disk for one task.\<close>

definition has_file :: "store \<Rightarrow> string \<Rightarrow> string \<Rightarrow> bool" where
  "has_file st name file = (file_content st name file \<noteq> None)"

definition has_metadata :: "store \<Rightarrow> string \<Rightarrow> bool" where
  "has_metadata st name = has_file st name ''metadata.json''"

definition has_artifacts :: "store \<Rightarrow> string \<Rightarrow> bool" where
  "has_artifacts st name =
     (has_file st name ''snapshot.json''
      \<and> (has_file st name ''image-small.png'' \<or> has_file st name ''image-small'')
      \<and> (has_file st name ''image-large.png'' \<or> has_file st name ''image-large''))"

section \<open>Catalog entries (the API view)\<close>

record catalog_entry =
  entry_id :: "json option"
  entry_name :: "json option"
  entry_visualization :: json
  entry_imageAvailable :: json
  entry_snapshotAvailable :: json
  entry_displayMode :: json

datatype http_response = Status200 "catalog_entry list" | Status500 error


section \<open>GET /get-local-snapshots\<close>

text \<open>The object pushed at lines 143-150; reading a property of \<open>null\<close> throws.\<close>

definition local_entry :: "string \<Rightarrow> json \<Rightarrow> error + catalog_entry" where
  "local_entry folder metadata =
     (if metadata = JNull then Inl TypeError
      else Inr \<lparr>
        entry_id = Some (or_else (get_prop metadata ''id'') (JStr folder)),
        entry_name = Some (or_else (get_prop metadata ''name'') (JStr (''Snapshot '' @ folder))),
        entry_visualization = or_else (get_prop metadata ''visualization'') (JStr ''unknown''),
        entry_imageAvailable = or_else (get_prop metadata ''imageAvailable'') (JBool False),
        entry_snapshotAvailable = or_else (get_prop metadata ''snapshotAvailable'') (JBool False),
        entry_displayMode = or_else (get_prop metadata ''displayMode'') (JStr ''image'') \<rparr>)"

text \<open>The body of the \<open>try\<close> at lines 137-150 for one folder.\<close>

definition read_local :: "env \<Rightarrow> store \<Rightarrow> string \<Rightarrow> error + catalog_entry" where
  "read_local env st folder =
     (case fs_readFile env folder ''metadata.json'' st of
        Inl err \<Rightarrow> Inl err
      | Inr metadataContent \<Rightarrow>
          (case JSON_parse metadataContent of
             Inl err \<Rightarrow> Inl err
           | Inr metadata \<Rightarrow> local_entry folder metadata))"

text \<open>The loop over \<open>snapshotFolders\<close>; \<open>snapshots\<close> is the array being filled.\<close>

fun local_loop ::
  "env \<Rightarrow> store \<Rightarrow> (string \<times> node) list \<Rightarrow> catalog_entry list \<Rightarrow> catalog_entry list" where
  "local_loop env st [] snapshots = snapshots"
| "local_loop env st (folder # rest) snapshots =
     (case read_local env st (fst folder) of
        Inl err \<Rightarrow> local_loop env st rest snapshots
      | Inr e \<Rightarrow> local_loop env st rest (snapshots @ [e]))"

definition get_local_snapshots :: "env \<Rightarrow> store \<Rightarrow> http_response" where
  "get_local_snapshots env st =
     (case fs_access env st of
        Inl err \<Rightarrow> Status200 []
      | Inr u \<Rightarrow>
          (case fs_readdir env st of
             Inl err \<Rightarrow> Status500 err
           | Inr entries \<Rightarrow>
               Status200 (local_loop env st (filter isDirectory entries) [])))"

section \<open>saveSnapshots\<close>

definition SUPPORTED_CHARTS :: "string list" where
  "SUPPORTED_CHARTS =
     [''barchart'', ''piechart'', ''linechart'', ''mekkochart'', ''qlik-funnel-chart-ext'',
      ''qlik-sankey-chart-ext'', ''kpi'', ''bulletchart'', ''sn-org-chart'', ''combochart'',
      ''scatterplot'', ''histogram'', ''waterfallchart'', ''gauge'', ''childObject'']"

definition executionId :: string where
  "executionId = ''latest''"

definition fileFormats :: "string list" where
  "fileFormats = [''snapshot'', ''image-small'', ''image-large'']"

text \<open>The variables declared at lines 195-199.\<close>

record locals =
  snapshotData :: "payload option"
  imageSmallSaved :: bool
  imageLargeSaved :: bool
  snapshotSaved :: bool
  hasFailures :: bool

definition init_locals :: locals where
  "init_locals =
     \<lparr> snapshotData = None, imageSmallSaved = False, imageLargeSaved = False,
       snapshotSaved = False, hasFailures = False \<rparr>"

text \<open>Lines 239-247: the bytes to write for a payload that is not JSON-typed.\<close>

definition to_buffer :: "env \<Rightarrow> payload \<Rightarrow> error + bytes" where
  "to_buffer env p =
     (case p of Blob b \<Rightarrow> Inr b | Buffer b \<Rightarrow> Inr b | Json j \<Rightarrow> Buffer_from env j)"

text \<open>
  Lines 216-263, the branch taken when the status test succeeds: classify by the content
  type (lines 216-218: the header or \<open>""\<close>, in lower case), write the file, set the flag
  of the role. Any exception leaves the locals as they were.
\<close>

definition contentType_of :: "response \<Rightarrow> string" where
  "contentType_of fileResponse =
     toLowerCase (case content_type fileResponse of
                    None \<Rightarrow> []
                  | Some h \<Rightarrow> if h = [] then [] else h)"

definition save_file ::
  "env \<Rightarrow> string \<Rightarrow> string \<Rightarrow> response \<Rightarrow> locals \<Rightarrow> store \<Rightarrow> error + locals \<times> store" where
  "save_file env dir fileAlias fileResponse loc st =
     (if str_includes (contentType_of fileResponse) ''application/json'' then
        (case fs_writeFile env dir (fileAlias @ ''.json'')
                (JSON_stringify (data fileResponse)) st of
           Inl err \<Rightarrow> Inl err
         | Inr st' \<Rightarrow>
             Inr (if fileAlias = ''snapshot''
                  then loc\<lparr>snapshotData := Some (data fileResponse), snapshotSaved := True\<rparr>
                  else loc, st'))
      else
        (case to_buffer env (data fileResponse) of
           Inl err \<Rightarrow> Inl err
         | Inr buf \<Rightarrow>
             (case fs_writeFile env dir
                     (if str_includes (contentType_of fileResponse) ''image/png''
                      then fileAlias @ ''.png'' else fileAlias)
                     (Raw buf) st of
                Inl err \<Rightarrow> Inl err
              | Inr st' \<Rightarrow>
                  Inr (if fileAlias = ''image-small'' then loc\<lparr>imageSmallSaved := True\<rparr>
                       else if fileAlias = ''image-large'' then loc\<lparr>imageLargeSaved := True\<rparr>
                       else loc, st'))))"

text \<open>
  The loop over \<open>fileFormats\<close> (lines 206-281). The test at line 215 is written
  \<open>fileResponse.status = 200\<close>: an assignment, whose value \<open>200\<close> is the condition.
  Both \<open>catch\<close> and the \<open>else\<close> branch set \<open>hasFailures\<close> and leave the loop.
\<close>

fun download :: "env \<Rightarrow> task \<Rightarrow> string list \<Rightarrow> locals \<Rightarrow> store \<Rightarrow> locals \<times> store" where
  "download env task [] loc st = (loc, st)"
| "download env task (fileAlias # rest) loc st =
     (case getSharingTaskExecutionFile env (task_id task) executionId fileAlias of
        Inl fileErr \<Rightarrow> (loc\<lparr>hasFailures := True\<rparr>, st)
      | Inr fileResponse0 \<Rightarrow>
          (let fileResponse = fileResponse0\<lparr>status := 200\<rparr>
           in if status fileResponse \<noteq> 0 then
                (case save_file env (task_id task) fileAlias fileResponse loc st of
                   Inl fileErr \<Rightarrow> (loc\<lparr>hasFailures := True\<rparr>, st)
                 | Inr (loc', st') \<Rightarrow> download env task rest loc' st')
              else (loc\<lparr>hasFailures := True\<rparr>, st)))"

text \<open>Lines 302-306.\<close>

definition visualization_of :: "payload option \<Rightarrow> json" where
  "visualization_of sd =
     (case sd of
        Some (Json j) \<Rightarrow>
          (if truthy j then
             (case get_prop j ''visualization'' of
                None \<Rightarrow> JStr ''unknown''
              | Some v \<Rightarrow> if truthy v then v else JStr ''unknown'')
           else JStr ''unknown'')
      | _ \<Rightarrow> JStr ''unknown'')"

text \<open>Lines 309-311; \<open>Array.prototype.includes\<close> finds a string only.\<close>

definition displayMode_of :: "json \<Rightarrow> string" where
  "displayMode_of visualization =
     (if visualization \<in> set (map JStr SUPPORTED_CHARTS) then ''snapshot'' else ''image'')"

text \<open>Lines 314-321: the spread of the task, then the five properties, each replacing a
  property of that name in place or coming last.\<close>

definition task_object :: "task \<Rightarrow> (string \<times> json) list" where
  "task_object task =
     (''id'', JStr (task_id task)) # (''name'', JStr (task_name task)) # task_details task"

definition enhancedMetadata :: "task \<Rightarrow> payload option \<Rightarrow> string \<Rightarrow> json" where
  "enhancedMetadata task sd now =
     (let visualization = visualization_of sd;
          displayMode = displayMode_of visualization
      in JObj (AList.update ''lastUpdated'' (JStr now)
              (AList.update ''displayMode'' (JStr displayMode)
              (AList.update ''snapshotAvailable'' (JBool True)
              (AList.update ''imageAvailable'' (JBool True)
              (AList.update ''visualization'' visualization (task_object task)))))))"

text \<open>Lines 288-298: best-effort removal of the task's directory.\<close>

definition cleanup :: "env \<Rightarrow> string \<Rightarrow> store \<Rightarrow> store" where
  "cleanup env dir st = (case fs_rm env dir st of Inl cleanupErr \<Rightarrow> st | Inr st' \<Rightarrow> st')"

text \<open>The test at line 284.\<close>

definition incomplete :: "locals \<Rightarrow> bool" where
  "incomplete loc =
     (hasFailures loc \<or> \<not> imageSmallSaved loc \<or> \<not> imageLargeSaved loc \<or> \<not> snapshotSaved loc)"

text \<open>
  The body of the loop over the tasks (lines 191-328); \<open>now\<close> is what
  \<open>new Date().toISOString()\<close> returns. An exception that leaves \<open>saveSnapshots\<close> is \<open>Inl\<close>,
  with the store as it is then.
\<close>

definition save_task :: "env \<Rightarrow> string \<Rightarrow> task \<Rightarrow> store \<Rightarrow> error \<times> store + store" where
  "save_task env now task st =
     (case fs_mkdir env (task_id task) st of
        Inl err \<Rightarrow> Inl (err, st)
      | Inr st1 \<Rightarrow>
          (case download env task fileFormats init_locals st1 of
             (loc, st2) \<Rightarrow>
               if incomplete loc
               then Inr (cleanup env (task_id task) st2)
               else
                 (case fs_writeFile env (task_id task) ''metadata.json''
                         (JsonText (enhancedMetadata task (snapshotData loc) now)) st2 of
                    Inl err \<Rightarrow> Inl (err, st2)
                  | Inr st3 \<Rightarrow> Inr st3)))"

text \<open>
  The attempts of one task up to the test at line 284 (\<open>None\<close> when creating the
  directory throws), and the two ways the transaction ends.
\<close>

definition transaction :: "env \<Rightarrow> task \<Rightarrow> store \<Rightarrow> (locals \<times> store) option" where
  "transaction env task st =
     (case fs_mkdir env (task_id task) st of
        Inl err \<Rightarrow> None
      | Inr st1 \<Rightarrow> Some (download env task fileFormats init_locals st1))"

definition failed :: "env \<Rightarrow> task \<Rightarrow> store \<Rightarrow> bool" where
  "failed env task st =
     (case transaction env task st of None \<Rightarrow> False | Some (loc, st2) \<Rightarrow> incomplete loc)"

definition committed :: "env \<Rightarrow> task \<Rightarrow> store \<Rightarrow> bool" where
  "committed env task st =
     (case transaction env task st of None \<Rightarrow> False | Some (loc, st2) \<Rightarrow> \<not> incomplete loc)"

text \<open>The loop over the tasks; \<open>clock i\<close> is the time at the \<open>i\<close>-th task.\<close>

fun save_tasks :: "env \<Rightarrow> (nat \<Rightarrow> string) \<Rightarrow> task list \<Rightarrow> store \<Rightarrow> error \<times> store + store" where
  "save_tasks env clock [] st = Inr st"
| "save_tasks env clock (task # rest) st =
     (case save_task env (clock 0) task st of
        Inl x \<Rightarrow> Inl x
      | Inr st' \<Rightarrow> save_tasks env (\<lambda>i. clock (Suc i)) rest st')"

definition saveSnapshots ::
  "env \<Rightarrow> (nat \<Rightarrow> string) \<Rightarrow> task list \<Rightarrow> store \<Rightarrow> error \<times> store + store" where
  "saveSnapshots env clock tasks st =
     (case fs_mkdir_root env st of
        Inl err \<Rightarrow> Inl (err, st)
      | Inr st' \<Rightarrow> save_tasks env clock tasks st')"

section \<open>GET /get-snapshots\<close>






section \<open>Example environments and stores\<close>

text \<open>Two tasks, a JSON snapshot payload and a PNG image as the remote serves them.\<close>

definition task1 :: task where
  "task1 = \<lparr> task_id = ''T1'', task_name = ''Sales KPI'', task_details = [] \<rparr>"

definition task2 :: task where
  "task2 = \<lparr> task_id = ''T2'', task_name = ''Regions'', task_details = [] \<rparr>"

definition kpi_payload :: json where
  "kpi_payload = JObj [(''visualization'', JStr ''kpi'')]"

definition json_response :: "json \<Rightarrow> response" where
  "json_response j = \<lparr> status = 200, content_type = Some ''application/json'', data = Json j \<rparr>"

definition png_response :: response where
  "png_response = \<lparr> status = 200, content_type = Some ''image/png'', data = Blob ''PNG'' \<rparr>"

definition clock0 :: "nat \<Rightarrow> string" where
  "clock0 i = ''2025-01-01T00:00:00.000Z''"

definition no_fault :: "fs_op \<Rightarrow> string list \<Rightarrow> bool" where
  "no_fault op p = False"

text \<open>A remote that serves the three files of every task, and a file system without faults.\<close>

definition serve_all :: "string \<Rightarrow> string \<Rightarrow> string \<Rightarrow> error + response" where
  "serve_all taskId execution fileAlias =
     (if fileAlias = ''snapshot'' then Inr (json_response kpi_payload) else Inr png_response)"

definition env_ok :: env where
  "env_ok =
     \<lparr> getItems = Inr [''r1''],
       getSharingTask = (\<lambda>resourceId. Inr task1),
       getSharingTaskExecutionFile = serve_all,
       Buffer_from = (\<lambda>j. Inl TypeError),
       fs_fault = no_fault \<rparr>"

text \<open>The store after task \<open>T1\<close> was committed at time \<open>now\<close>.\<close>

definition record_at :: "string \<Rightarrow> (string \<times> json) list" where
  "record_at now =
     [(''id'', JStr ''T1''), (''name'', JStr ''Sales KPI''), (''visualization'', JStr ''kpi''),
      (''imageAvailable'', JBool True), (''snapshotAvailable'', JBool True),
      (''displayMode'', JStr ''snapshot''), (''lastUpdated'', JStr now)]"

definition committed_at :: "string \<Rightarrow> store" where
  "committed_at now =
     Some [(''T1'', Dir [(''snapshot.json'', JsonText kpi_payload),
                        (''image-small.png'', Raw ''PNG''),
                        (''image-large.png'', Raw ''PNG''),
                        (''metadata.json'', JsonText (JObj (record_at now)))])]"


text \<open>The file of the role \<open>snapshot\<close> answered with status 404, without an exception.\<close>

definition not_found :: response where
  "not_found =
     \<lparr> status = 404, content_type = Some ''application/json'',
       data = Json (JObj [(''error'', JStr ''not found'')]) \<rparr>"

definition serve_404 :: "string \<Rightarrow> string \<Rightarrow> string \<Rightarrow> error + response" where
  "serve_404 taskId execution fileAlias =
     (if fileAlias = ''snapshot'' then Inr not_found else Inr png_response)"

definition env_404 :: env where
  "env_404 = env_ok\<lparr>getSharingTaskExecutionFile := serve_404\<rparr>"





text \<open>
  Nothing served for \<open>T1\<close>; for \<open>T2\<close> the snapshot only, and its directory cannot
  be removed.
\<close>

definition serve_T2_snapshot :: "string \<Rightarrow> string \<Rightarrow> string \<Rightarrow> error + response" where
  "serve_T2_snapshot taskId execution fileAlias =
     (if taskId = ''T2'' \<and> fileAlias = ''snapshot'' then Inr (json_response kpi_payload)
      else Inl RemoteError)"

definition rm_T2_fault :: "fs_op \<Rightarrow> string list \<Rightarrow> bool" where
  "rm_T2_fault op p = (op = Rm \<and> p = [''T2''])"

definition env_partial :: env where
  "env_partial =
     env_ok\<lparr>getSharingTaskExecutionFile := serve_T2_snapshot, fs_fault := rm_T2_fault\<rparr>"

definition store_T2_left :: store where
  "store_T2_left = Some [(''T2'', Dir [(''snapshot.json'', JsonText kpi_payload)])]"

text \<open>The large image of every task missing on the remote (the exception of a 404).\<close>

definition serve_no_large :: "string \<Rightarrow> string \<Rightarrow> string \<Rightarrow> error + response" where
  "serve_no_large taskId execution fileAlias =
     (if fileAlias = ''image-large'' then Inl RemoteError else serve_all taskId execution fileAlias)"

definition env_no_large :: env where
  "env_no_large =
     env_ok\<lparr>getSharingTask := (\<lambda>resourceId. Inr task2),
            getSharingTaskExecutionFile := serve_no_large\<rparr>"








definition entry_old :: catalog_entry where
  "entry_old =
     \<lparr> entry_id = Some (JStr ''old''), entry_name = Some (JStr ''Old chart''),
       entry_visualization = JStr ''unknown'', entry_imageAvailable = JBool False,
       entry_snapshotAvailable = JBool False, entry_displayMode = JStr ''image'' \<rparr>"

text \<open>A valid directory, one whose metadata is not JSON, and a plain file.\<close>

definition entries_mixed :: "(string \<times> node) list" where
  "entries_mixed =
     [(''bad'', Dir [(''metadata.json'', Raw ''{oops'')]),
      (''old'', Dir [(''metadata.json'',
                     JsonText (JObj [(''id'', JStr ''old''), (''name'', JStr ''Old chart'')]))]),
      (''notes.txt'', File)]"

text \<open>A metadata record without \<open>id\<close> and \<open>name\<close>.\<close>

definition store_bare :: store where
  "store_bare = Some [(''abc'', Dir [(''metadata.json'', JsonText (JObj []))])]"

definition entry_bare :: catalog_entry where
  "entry_bare =
     \<lparr> entry_id = Some (JStr ''abc''), entry_name = Some (JStr ''Snapshot abc''),
       entry_visualization = JStr ''unknown'', entry_imageAvailable = JBool False,
       entry_snapshotAvailable = JBool False, entry_displayMode = JStr ''image'' \<rparr>"

section \<open>Facts about the store operations\<close>

text \<open>Each operation changes what one name below the root stands for, and nothing else.\<close>

lemma node_at_mkdir:
  assumes "fs_mkdir env n st = Inr st'"
  shows "\<exists>fs. node_at st' = (node_at st)(n \<mapsto> Dir fs) \<and> (node_at st n = None \<or> node_at st n = Some (Dir fs))"
  using assms
  by (auto simp: fs_mkdir_def node_at_def AList.update_conv' fun_eq_iff
           split: if_splits option.splits node.splits)

lemma node_at_writeFile:
  assumes "fs_writeFile env n f c st = Inr st'"
  shows "\<exists>fs. node_at st n = Some (Dir fs) \<and> node_at st' = (node_at st)(n \<mapsto> Dir (AList.update f c fs))"
  using assms
  by (auto simp: fs_writeFile_def node_at_def AList.update_conv'
           split: if_splits option.splits node.splits)

lemma node_at_rm:
  assumes "fs_rm env n st = Inr st'"
  shows "node_at st' = (node_at st)(n := None)"
  using assms
  by (auto simp: fs_rm_def node_at_def AList.delete_conv'
           split: if_splits option.splits)

lemma fs_rm_ok:
  assumes "\<not> fs_fault env Rm [n]" and "node_at st n = Some nd"
  shows "\<exists>st'. fs_rm env n st = Inr st'"
  using assms by (auto simp: fs_rm_def node_at_def split: option.splits)




lemma file_content_Dir:
  "node_at st n = Some (Dir fs) \<Longrightarrow> file_content st n f = map_of fs f"
  by (simp add: file_content_def lookup_dir_def)

lemma file_content_absent:
  "node_at st n = None \<Longrightarrow> file_content st n f = None"
  by (simp add: file_content_def lookup_dir_def)

lemma fs_mkdir_Dir:
  assumes "fs_mkdir env n st = Inr st'"
  shows "\<exists>fs. node_at st' n = Some (Dir fs)"
  using node_at_mkdir[OF assms] by auto

lemma fs_mkdir_frame:
  assumes "fs_mkdir env n st = Inr st'" and "m \<noteq> n"
  shows "node_at st' m = node_at st m"
  using node_at_mkdir[OF assms(1)] assms(2) by auto



lemma cleanup_removes:
  assumes "\<not> fs_fault env Rm [n]" and "node_at st n = Some nd"
  shows "node_at (cleanup env n st) n = None"
proof -
  from fs_rm_ok[OF assms] obtain st' where r: "fs_rm env n st = Inr st'" by blast
  then have "cleanup env n st = st'" by (simp add: cleanup_def)
  with node_at_rm[OF r] show ?thesis by simp
qed



lemma absent_has_nothing:
  assumes "node_at st n = None"
  shows "\<not> has_file st n f" and "\<not> has_metadata st n" and "\<not> has_artifacts st n"
  using file_content_absent[OF assms]
  by (simp_all add: has_metadata_def has_artifacts_def has_file_def)


lemma fs_readFile_Inr:
  "fs_readFile env n f st = Inr c \<longleftrightarrow> \<not> fs_fault env ReadFile [n, f] \<and> file_content st n f = Some c"
  by (cases "file_content st n f") (simp_all add: fs_readFile_def)

lemma JSON_parse_Inr: "JSON_parse c = Inr j \<longleftrightarrow> c = JsonText j"
  by (cases c) (simp_all add: JSON_parse_def)

section \<open>Facts about the loop over the roles\<close>

text \<open>
  One role that does not throw writes one file into the task's directory and sets at most
  the flag of its own role.
\<close>

lemma save_file_Inr:
  assumes "save_file env d a r loc st = Inr (loc', st')"
  shows "(str_includes (contentType_of r) ''application/json'' \<and>
          fs_writeFile env d (a @ ''.json'') (JSON_stringify (data r)) st = Inr st' \<and>
          loc' = (if a = ''snapshot'' then loc\<lparr>snapshotData := Some (data r), snapshotSaved := True\<rparr> else loc))
       \<or> (\<not> str_includes (contentType_of r) ''application/json'' \<and>
          (\<exists>buf. fs_writeFile env d (if str_includes (contentType_of r) ''image/png'' then a @ ''.png'' else a) (Raw buf) st = Inr st') \<and>
          loc' = (if a = ''image-small'' then loc\<lparr>imageSmallSaved := True\<rparr>
                  else if a = ''image-large'' then loc\<lparr>imageLargeSaved := True\<rparr> else loc))"
proof (cases "str_includes (contentType_of r) ''application/json''")
  case True
  with assms show ?thesis
    by (auto simp: save_file_def split: sum.splits)
next
  case False
  with assms show ?thesis
    by (auto simp: save_file_def split: sum.splits)
qed

lemma save_file_store:
  assumes "save_file env d a r loc st = Inr (loc', st')"
  shows "\<exists>f c fs. node_at st d = Some (Dir fs) \<and> node_at st' = (node_at st)(d \<mapsto> Dir (AList.update f c fs))
           \<and> (snapshotSaved loc' \<longrightarrow> snapshotSaved loc \<or> f = ''snapshot.json'')
           \<and> (imageSmallSaved loc' \<longrightarrow> imageSmallSaved loc \<or> f = ''image-small.png'' \<or> f = ''image-small'')
           \<and> (imageLargeSaved loc' \<longrightarrow> imageLargeSaved loc \<or> f = ''image-large.png'' \<or> f = ''image-large'')
           \<and> hasFailures loc' = hasFailures loc"
  using save_file_Inr[OF assms]
proof (elim disjE conjE exE)
  assume w: "fs_writeFile env d (a @ ''.json'') (JSON_stringify (data r)) st = Inr st'"
    and l: "loc' = (if a = ''snapshot'' then loc\<lparr>snapshotData := Some (data r), snapshotSaved := True\<rparr> else loc)"
  from node_at_writeFile[OF w] l show ?thesis by (cases "a = ''snapshot''") auto
next
  fix buf
  assume w: "fs_writeFile env d (if str_includes (contentType_of r) ''image/png'' then a @ ''.png'' else a) (Raw buf) st = Inr st'"
    and l: "loc' = (if a = ''image-small'' then loc\<lparr>imageSmallSaved := True\<rparr>
                  else if a = ''image-large'' then loc\<lparr>imageLargeSaved := True\<rparr> else loc)"
  from node_at_writeFile[OF w] l show ?thesis
    by (cases "a = ''image-small''"; cases "a = ''image-large''"; cases "str_includes (contentType_of r) ''image/png''") auto
qed

text \<open>
  The loop only adds files to the task's directory; a flag that it sets is backed by a
  file, and \<open>snapshotData\<close> is the body of the response of the role \<open>snapshot\<close>.
\<close>

lemma download_store:
  assumes "download env task as loc st = (loc', st')"
    and "node_at st (task_id task) = Some (Dir fs)"
  shows "\<exists>fs'. node_at st' = (node_at st)(task_id task \<mapsto> Dir fs')
           \<and> (\<forall>f. map_of fs f \<noteq> None \<longrightarrow> map_of fs' f \<noteq> None)
           \<and> (snapshotSaved loc' \<longrightarrow> snapshotSaved loc \<or> map_of fs' ''snapshot.json'' \<noteq> None)
           \<and> (imageSmallSaved loc' \<longrightarrow> imageSmallSaved loc
                 \<or> map_of fs' ''image-small.png'' \<noteq> None \<or> map_of fs' ''image-small'' \<noteq> None)
           \<and> (imageLargeSaved loc' \<longrightarrow> imageLargeSaved loc
                 \<or> map_of fs' ''image-large.png'' \<noteq> None \<or> map_of fs' ''image-large'' \<noteq> None)
           \<and> (hasFailures loc \<longrightarrow> hasFailures loc')"
proof -
  have triv: "\<And>st fs loc l. node_at st (task_id task) = Some (Dir fs) \<Longrightarrow>
      l = loc \<or> l = loc\<lparr>hasFailures := True\<rparr> \<Longrightarrow>
      \<exists>fs'. node_at st = (node_at st)(task_id task \<mapsto> Dir fs')
           \<and> (\<forall>f. map_of fs f \<noteq> None \<longrightarrow> map_of fs' f \<noteq> None)
           \<and> (snapshotSaved l \<longrightarrow> snapshotSaved loc \<or> map_of fs' ''snapshot.json'' \<noteq> None)
           \<and> (imageSmallSaved l \<longrightarrow> imageSmallSaved loc
                 \<or> map_of fs' ''image-small.png'' \<noteq> None \<or> map_of fs' ''image-small'' \<noteq> None)
           \<and> (imageLargeSaved l \<longrightarrow> imageLargeSaved loc
                 \<or> map_of fs' ''image-large.png'' \<noteq> None \<or> map_of fs' ''image-large'' \<noteq> None)
           \<and> (hasFailures loc \<longrightarrow> hasFailures l)"
  proof -
    fix st fs loc l
    assume a: "node_at st (task_id task) = Some (Dir fs)" and b: "l = loc \<or> l = loc\<lparr>hasFailures := True\<rparr>"
    from a have "(node_at st)(task_id task \<mapsto> Dir fs) = node_at st" by (rule fun_upd_idem)
    then have "node_at st = (node_at st)(task_id task \<mapsto> Dir fs)" by simp
    moreover from b have "snapshotSaved l = snapshotSaved loc" "imageSmallSaved l = imageSmallSaved loc"
      "imageLargeSaved l = imageLargeSaved loc" "hasFailures loc \<longrightarrow> hasFailures l" by auto
    ultimately show "\<exists>fs'. node_at st = (node_at st)(task_id task \<mapsto> Dir fs')
           \<and> (\<forall>f. map_of fs f \<noteq> None \<longrightarrow> map_of fs' f \<noteq> None)
           \<and> (snapshotSaved l \<longrightarrow> snapshotSaved loc \<or> map_of fs' ''snapshot.json'' \<noteq> None)
           \<and> (imageSmallSaved l \<longrightarrow> imageSmallSaved loc
                 \<or> map_of fs' ''image-small.png'' \<noteq> None \<or> map_of fs' ''image-small'' \<noteq> None)
           \<and> (imageLargeSaved l \<longrightarrow> imageLargeSaved loc
                 \<or> map_of fs' ''image-large.png'' \<noteq> None \<or> map_of fs' ''image-large'' \<noteq> None)
           \<and> (hasFailures loc \<longrightarrow> hasFailures l)"
      by (intro exI[of _ fs]) simp
  qed
  from assms show ?thesis
proof (induction as arbitrary: loc st fs)
  case Nil
  then have "loc' = loc" "st' = st" by simp_all
  with Nil triv show ?case by blast
next
  case (Cons a as)
  let ?d = "task_id task"
  show ?case
  proof (cases "getSharingTaskExecutionFile env ?d executionId a")
    case (Inl e)
    with Cons.prems have "loc' = loc\<lparr>hasFailures := True\<rparr>" "st' = st" by simp_all
    with Cons.prems(2) triv show ?thesis by blast
  next
    case (Inr r0)
    let ?r = "r0\<lparr>status := 200\<rparr>"
    show ?thesis
    proof (cases "save_file env ?d a ?r loc st")
      case (Inl e)
      with Inr Cons.prems have "loc' = loc\<lparr>hasFailures := True\<rparr>" "st' = st" by simp_all
      with Cons.prems(2) triv show ?thesis by blast
    next
      case (Inr p)
      obtain loc1 st1 where p: "p = (loc1, st1)" by (cases p)
      from Inr p have sf: "save_file env ?d a ?r loc st = Inr (loc1, st1)" by simp
      from save_file_store[OF sf] Cons.prems(2) obtain f c where
        n1: "node_at st1 = (node_at st)(?d \<mapsto> Dir (AList.update f c fs))"
        and s1: "snapshotSaved loc1 \<longrightarrow> snapshotSaved loc \<or> f = ''snapshot.json''"
        and i1: "imageSmallSaved loc1 \<longrightarrow> imageSmallSaved loc \<or> f = ''image-small.png'' \<or> f = ''image-small''"
        and l1: "imageLargeSaved loc1 \<longrightarrow> imageLargeSaved loc \<or> f = ''image-large.png'' \<or> f = ''image-large''"
        and h1: "hasFailures loc1 = hasFailures loc"
        by auto
      from Cons.prems(1) \<open>getSharingTaskExecutionFile env ?d executionId a = Inr r0\<close> sf
      have rest: "download env task as loc1 st1 = (loc', st')" by simp
      from n1 have d1: "node_at st1 ?d = Some (Dir (AList.update f c fs))" by simp
      from Cons.IH[OF rest d1] obtain fs' where
        n2: "node_at st' = (node_at st1)(?d \<mapsto> Dir fs')"
        and keep: "\<forall>g. map_of (AList.update f c fs) g \<noteq> None \<longrightarrow> map_of fs' g \<noteq> None"
        and s2: "snapshotSaved loc' \<longrightarrow> snapshotSaved loc1 \<or> map_of fs' ''snapshot.json'' \<noteq> None"
        and i2: "imageSmallSaved loc' \<longrightarrow> imageSmallSaved loc1
                 \<or> map_of fs' ''image-small.png'' \<noteq> None \<or> map_of fs' ''image-small'' \<noteq> None"
        and l2: "imageLargeSaved loc' \<longrightarrow> imageLargeSaved loc1
                 \<or> map_of fs' ''image-large.png'' \<noteq> None \<or> map_of fs' ''image-large'' \<noteq> None"
        and h2: "hasFailures loc1 \<longrightarrow> hasFailures loc'"
        by blast
      have written: "map_of fs' f \<noteq> None"
        using keep by (simp add: AList.update_conv')
      have kept: "\<forall>g. map_of fs g \<noteq> None \<longrightarrow> map_of fs' g \<noteq> None"
        using keep by (simp add: AList.update_conv')
      from n1 n2 have "node_at st' = (node_at st)(?d \<mapsto> Dir fs')" by simp
      with kept written s1 s2 i1 i2 l1 l2 h1 h2 show ?thesis
        by (intro exI[of _ fs']) blast
    qed
  qed
qed
qed

lemma download_snapshotData:
  assumes "download env task as loc st = (loc', st')"
    and "snapshotSaved loc \<longrightarrow>
           (\<exists>r. getSharingTaskExecutionFile env (task_id task) executionId ''snapshot'' = Inr r
                \<and> snapshotData loc = Some (data r))"
  shows "snapshotSaved loc' \<longrightarrow>
           (\<exists>r. getSharingTaskExecutionFile env (task_id task) executionId ''snapshot'' = Inr r
                \<and> snapshotData loc' = Some (data r))"
  using assms
proof (induction as arbitrary: loc st)
  case Nil
  then show ?case by simp
next
  case (Cons a as)
  let ?d = "task_id task"
  show ?case
  proof (cases "getSharingTaskExecutionFile env ?d executionId a")
    case (Inl e)
    with Cons.prems show ?thesis by auto
  next
    case (Inr r0)
    let ?r = "r0\<lparr>status := 200\<rparr>"
    show ?thesis
    proof (cases "save_file env ?d a ?r loc st")
      case (Inl e)
      with Inr Cons.prems show ?thesis by auto
    next
      case (Inr p)
      obtain loc1 st1 where p: "p = (loc1, st1)" by (cases p)
      from Inr p have sf: "save_file env ?d a ?r loc st = Inr (loc1, st1)" by simp
      from Cons.prems(1) \<open>getSharingTaskExecutionFile env ?d executionId a = Inr r0\<close> sf
      have rest: "download env task as loc1 st1 = (loc', st')" by simp
      have "snapshotSaved loc1 \<longrightarrow>
           (\<exists>r. getSharingTaskExecutionFile env ?d executionId ''snapshot'' = Inr r
                \<and> snapshotData loc1 = Some (data r))"
        using save_file_Inr[OF sf] Cons.prems(2)
          \<open>getSharingTaskExecutionFile env ?d executionId a = Inr r0\<close>
        by (cases "a = ''snapshot''"; cases "a = ''image-small''"; cases "a = ''image-large''") auto
      from Cons.IH[OF rest this] show ?thesis .
    qed
  qed
qed

lemma download_throws:
  assumes "a \<in> set as"
    and "getSharingTaskExecutionFile env (task_id task) executionId a = Inl e"
  shows "hasFailures (fst (download env task as loc st))"
  using assms
proof (induction as arbitrary: loc st)
  case Nil
  then show ?case by simp
next
  case (Cons b as)
  show ?case
  proof (cases "b = a")
    case True
    with Cons.prems show ?thesis by simp
  next
    case False
    with Cons.prems have "a \<in> set as" by simp
    from Cons.IH[OF this Cons.prems(2)] show ?thesis
      by (auto split: sum.splits)
  qed
qed

text \<open>The loop does not depend on the status of any response.\<close>

lemma save_file_env:
  assumes "Buffer_from env' = Buffer_from env" and "fs_fault env' = fs_fault env"
  shows "save_file env' d a r loc st = save_file env d a r loc st"
proof -
  have w: "fs_writeFile env' d f c st = fs_writeFile env d f c st" for f c
    by (simp add: fs_writeFile_def assms)
  have b: "to_buffer env' p = to_buffer env p" for p
    by (cases p) (simp_all add: to_buffer_def assms)
  show ?thesis unfolding save_file_def w b ..
qed

lemma download_ignores_status:
  assumes "Buffer_from env' = Buffer_from env" and "fs_fault env' = fs_fault env"
    and "\<forall>a. rel_sum (=) (\<lambda>r' r. r'\<lparr>status := 200\<rparr> = r\<lparr>status := 200\<rparr>)
               (getSharingTaskExecutionFile env' (task_id task) executionId a)
               (getSharingTaskExecutionFile env (task_id task) executionId a)"
  shows "download env' task as loc st = download env task as loc st"
proof (induction as arbitrary: loc st)
  case Nil
  show ?case by simp
next
  case (Cons a as)
  let ?f' = "getSharingTaskExecutionFile env' (task_id task) executionId a"
  let ?f = "getSharingTaskExecutionFile env (task_id task) executionId a"
  from assms(3) have rel: "rel_sum (=) (\<lambda>r' r. r'\<lparr>status := 200\<rparr> = r\<lparr>status := 200\<rparr>) ?f' ?f"
    by blast
  show ?case
  proof (cases ?f)
    case (Inl e)
    with rel have "?f' = Inl e" by (cases ?f') simp_all
    with Inl show ?thesis by simp
  next
    case (Inr r)
    with rel obtain r' where r': "?f' = Inr r'" and eq: "r'\<lparr>status := 200\<rparr> = r\<lparr>status := 200\<rparr>"
      by (cases ?f') simp_all
    have "download env' task (a # as) loc st =
          (case save_file env' (task_id task) a (r'\<lparr>status := 200\<rparr>) loc st of
             Inl fileErr \<Rightarrow> (loc\<lparr>hasFailures := True\<rparr>, st)
           | Inr (loc', st') \<Rightarrow> download env' task as loc' st')"
      using r' by simp
    also have "\<dots> =
          (case save_file env (task_id task) a (r\<lparr>status := 200\<rparr>) loc st of
             Inl fileErr \<Rightarrow> (loc\<lparr>hasFailures := True\<rparr>, st)
           | Inr (loc', st') \<Rightarrow> download env task as loc' st')"
      by (simp add: save_file_env[OF assms(1,2)] eq Cons.IH split: sum.splits)
    also have "\<dots> = download env task (a # as) loc st"
      using Inr by simp
    finally show ?thesis .
  qed
qed

section \<open>Facts about one transaction\<close>

lemma save_task_Inr:
  assumes "save_task env now task st = Inr st'"
  shows "\<exists>loc st2. transaction env task st = Some (loc, st2) \<and>
           ((incomplete loc \<and> st' = cleanup env (task_id task) st2)
          \<or> (\<not> incomplete loc \<and>
              fs_writeFile env (task_id task) ''metadata.json''
                (JsonText (enhancedMetadata task (snapshotData loc) now)) st2 = Inr st'))"
proof (cases "fs_mkdir env (task_id task) st")
  case (Inl e)
  with assms show ?thesis by (simp add: save_task_def)
next
  case (Inr st1)
  obtain loc st2 where d: "download env task fileFormats init_locals st1 = (loc, st2)"
    by (cases "download env task fileFormats init_locals st1")
  with Inr assms show ?thesis
    by (cases "incomplete loc") (auto simp: save_task_def transaction_def split: sum.splits)
qed

lemma transaction_store:
  assumes "transaction env task st = Some (loc, st2)"
  shows "\<exists>fs. node_at st2 (task_id task) = Some (Dir fs)
           \<and> (\<forall>m. m \<noteq> task_id task \<longrightarrow> node_at st2 m = node_at st m)
           \<and> (snapshotSaved loc \<longrightarrow> map_of fs ''snapshot.json'' \<noteq> None)
           \<and> (imageSmallSaved loc \<longrightarrow>
                 map_of fs ''image-small.png'' \<noteq> None \<or> map_of fs ''image-small'' \<noteq> None)
           \<and> (imageLargeSaved loc \<longrightarrow>
                 map_of fs ''image-large.png'' \<noteq> None \<or> map_of fs ''image-large'' \<noteq> None)"
proof -
  from assms obtain st1 where m: "fs_mkdir env (task_id task) st = Inr st1"
    and d: "download env task fileFormats init_locals st1 = (loc, st2)"
    by (auto simp: transaction_def split: sum.splits)
  from fs_mkdir_Dir[OF m] obtain fs1 where n1: "node_at st1 (task_id task) = Some (Dir fs1)" ..
  from download_store[OF d n1] obtain fs' where
    n2: "node_at st2 = (node_at st1)(task_id task \<mapsto> Dir fs')"
    and s: "snapshotSaved loc \<longrightarrow> snapshotSaved init_locals \<or> map_of fs' ''snapshot.json'' \<noteq> None"
    and i: "imageSmallSaved loc \<longrightarrow> imageSmallSaved init_locals
                 \<or> map_of fs' ''image-small.png'' \<noteq> None \<or> map_of fs' ''image-small'' \<noteq> None"
    and l: "imageLargeSaved loc \<longrightarrow> imageLargeSaved init_locals
                 \<or> map_of fs' ''image-large.png'' \<noteq> None \<or> map_of fs' ''image-large'' \<noteq> None"
    by blast
  from n2 have a: "node_at st2 (task_id task) = Some (Dir fs')" by simp
  from n2 fs_mkdir_frame[OF m] have b: "\<forall>m. m \<noteq> task_id task \<longrightarrow> node_at st2 m = node_at st m"
    by simp
  from a b s i l show ?thesis by (intro exI[of _ fs']) (simp add: init_locals_def)
qed

lemma transaction_snapshotData:
  assumes "transaction env task st = Some (loc, st2)" and "snapshotSaved loc"
  shows "\<exists>r. getSharingTaskExecutionFile env (task_id task) executionId ''snapshot'' = Inr r
            \<and> snapshotData loc = Some (data r)"
proof -
  from assms obtain st1 where d: "download env task fileFormats init_locals st1 = (loc, st2)"
    by (auto simp: transaction_def split: sum.splits)
  from download_snapshotData[OF d] assms(2) show ?thesis by (simp add: init_locals_def)
qed

lemma thrown_fetch_fails:
  assumes "transaction env task st = Some (loc, st2)" and "a \<in> set fileFormats"
    and "getSharingTaskExecutionFile env (task_id task) executionId a = Inl e"
  shows "failed env task st"
proof -
  from assms obtain st1 where d: "download env task fileFormats init_locals st1 = (loc, st2)"
    by (auto simp: transaction_def split: sum.splits)
  from download_throws[OF assms(2,3), of init_locals st1] d have "incomplete loc"
    by (simp add: incomplete_def)
  with assms(1) show ?thesis by (simp add: failed_def)
qed


lemma committed_store:
  assumes "transaction env task st = Some (loc, st2)" and "\<not> incomplete loc"
    and w: "fs_writeFile env (task_id task) ''metadata.json''
                (JsonText (enhancedMetadata task (snapshotData loc) now)) st2 = Inr st'"
  shows "\<exists>r. getSharingTaskExecutionFile env (task_id task) executionId ''snapshot'' = Inr r
            \<and> file_content st' (task_id task) ''metadata.json''
                 = Some (JsonText (enhancedMetadata task (Some (data r)) now))
            \<and> has_artifacts st' (task_id task)"
proof -
  let ?d = "task_id task"
  from assms(2) have flags: "snapshotSaved loc" "imageSmallSaved loc" "imageLargeSaved loc"
    by (auto simp: incomplete_def)
  from transaction_store[OF assms(1)] flags obtain fs where
    n2: "node_at st2 ?d = Some (Dir fs)"
    and s: "map_of fs ''snapshot.json'' \<noteq> None"
    and i: "map_of fs ''image-small.png'' \<noteq> None \<or> map_of fs ''image-small'' \<noteq> None"
    and l: "map_of fs ''image-large.png'' \<noteq> None \<or> map_of fs ''image-large'' \<noteq> None"
    by blast
  from transaction_snapshotData[OF assms(1) flags(1)] obtain r where
    r: "getSharingTaskExecutionFile env ?d executionId ''snapshot'' = Inr r"
    and sd: "snapshotData loc = Some (data r)" by blast
  from node_at_writeFile[OF w] n2 have n3: "node_at st' ?d = Some (Dir (AList.update ''metadata.json''
       (JsonText (enhancedMetadata task (snapshotData loc) now)) fs))" by auto
  have fc: "\<And>f. file_content st' ?d f = map_of (AList.update ''metadata.json''
       (JsonText (enhancedMetadata task (snapshotData loc) now)) fs) f"
    by (rule file_content_Dir[OF n3])
  have "has_artifacts st' ?d"
    using s i l by (auto simp: has_artifacts_def has_file_def fc AList.update_conv')
  moreover have "file_content st' ?d ''metadata.json''
                 = Some (JsonText (enhancedMetadata task (Some (data r)) now))"
    by (simp add: fc AList.update_conv' sd)
  ultimately show ?thesis using r by blast
qed

lemma committed_record:
  assumes "committed env task st" and "save_task env now task st = Inr st'"
  shows "\<exists>r. getSharingTaskExecutionFile env (task_id task) executionId ''snapshot'' = Inr r
            \<and> file_content st' (task_id task) ''metadata.json''
                 = Some (JsonText (enhancedMetadata task (Some (data r)) now))
            \<and> has_artifacts st' (task_id task)"
proof -
  from assms(1) obtain loc st2 where t: "transaction env task st = Some (loc, st2)"
    and i: "\<not> incomplete loc"
    by (auto simp: committed_def split: option.splits)
  from save_task_Inr[OF assms(2)] t i
  have "fs_writeFile env (task_id task) ''metadata.json''
                (JsonText (enhancedMetadata task (snapshotData loc) now)) st2 = Inr st'"
    by auto
  from committed_store[OF t i this] show ?thesis .
qed









section \<open>Facts about the two listings\<close>


lemma local_loop_set:
  "set (local_loop env st fs acc) = set acc \<union> {e. \<exists>f\<in>set fs. read_local env st (fst f) = Inr e}"
proof (induction fs arbitrary: acc)
  case Nil
  show ?case by simp
next
  case (Cons f fs)
  show ?case by (cases "read_local env st (fst f)") (auto simp: Cons.IH)
qed


lemma read_local_Inr:
  assumes "read_local env st n = Inr e"
  shows "\<exists>m. \<not> fs_fault env ReadFile [n, ''metadata.json'']
            \<and> file_content st n ''metadata.json'' = Some (JsonText m)
            \<and> local_entry n m = Inr e"
proof -
  from assms obtain c where c: "fs_readFile env n ''metadata.json'' st = Inr c"
    by (cases "fs_readFile env n ''metadata.json'' st") (simp_all add: read_local_def)
  with assms obtain m where m: "JSON_parse c = Inr m"
    by (cases "JSON_parse c") (simp_all add: read_local_def)
  with c assms have "local_entry n m = Inr e" by (simp add: read_local_def)
  with c m show ?thesis by (auto simp: fs_readFile_Inr JSON_parse_Inr)
qed

lemma read_local_readable:
  assumes "\<not> fs_fault env ReadFile [n, ''metadata.json'']"
    and "file_content st n ''metadata.json'' = Some (JsonText m)"
  shows "read_local env st n = local_entry n m"
  using assms by (simp add: read_local_def fs_readFile_def JSON_parse_def)

lemma read_local_corrupt:
  assumes "fs_fault env ReadFile [n, ''metadata.json'']
           \<or> file_content st n ''metadata.json'' = None
           \<or> (\<exists>b. file_content st n ''metadata.json'' = Some (Raw b))
           \<or> file_content st n ''metadata.json'' = Some (JsonText JNull)"
  shows "\<exists>err. read_local env st n = Inl err"
  using assms by (auto simp: read_local_def fs_readFile_def JSON_parse_def local_entry_def)


lemma or_else_absent: "\<not> present a \<Longrightarrow> or_else a b = b"
  by (cases a) (simp_all add: present_def or_else_def)




lemma read_local_delete:
  assumes "m \<noteq> n"
  shows "read_local env (Some (AList.delete n ns)) m = read_local env (Some ns) m"
  using assms
  by (simp add: read_local_def fs_readFile_def file_content_def lookup_dir_def node_at_def)

lemma local_loop_cong:
  assumes "\<forall>f\<in>set fs. read_local env st' (fst f) = read_local env st (fst f)"
  shows "local_loop env st' fs acc = local_loop env st fs acc"
  using assms by (induction fs arbitrary: acc) (simp_all split: sum.splits)

lemma local_loop_skip:
  assumes "read_local env st n = Inl err"
  shows "local_loop env st (filter isDirectory (AList.delete n ns)) acc
           = local_loop env st (filter isDirectory ns) acc"
  using assms
  by (induction ns arbitrary: acc) (auto simp: AList.delete_eq split: sum.splits)

section \<open>A response with a non-success status\<close>

text \<open>
  C1. A response that arrives with a non-success status, without an exception, is meant to
  end the attempts for the task and to fail its transaction (the \<open>else\<close> branch at lines
  264-271). The test at line 215 assigns \<open>200\<close> to the status instead of comparing, so that
  branch is never taken and no status is ever looked at (\<open>download_ignores_status\<close>).
  Here the remote answers the role \<open>snapshot\<close> of task \<open>T1\<close> with status 404 and an error
  body: the transaction stores the body as \<open>snapshot.json\<close>, goes on to fetch both images
  and commits a metadata record.
\<close>

theorem status_404_is_committed:
  "saveSnapshots env_404 clock0 [task1] None =
     Inr (Some [(''T1'',
       Dir [(''snapshot.json'', JsonText (JObj [(''error'', JStr ''not found'')])),
            (''image-small.png'', Raw ''PNG''),
            (''image-large.png'', Raw ''PNG''),
            (''metadata.json'',
             JsonText (JObj [(''id'', JStr ''T1''), (''name'', JStr ''Sales KPI''),
                             (''visualization'', JStr ''unknown''),
                             (''imageAvailable'', JBool True),
                             (''snapshotAvailable'', JBool True),
                             (''displayMode'', JStr ''image''),
                             (''lastUpdated'', JStr ''2025-01-01T00:00:00.000Z'')]))])])"
  by code_simp

section \<open>Completeness of a task's directory\<close>




section \<open>A failed transaction\<close>

text \<open>
  C3. When the transaction of a task fails (the test at line 284 holds: an attempt threw,
  or a flag of the three roles is not set) and the removal of its directory succeeds, the
  directory is gone afterwards, with the metadata record and every artifact file, whether
  it was created by this transaction or existed before. An exception thrown by any of the
  three fetches is such a failure (\<open>thrown_fetch_fails\<close>).
\<close>

theorem failed_transaction_removes_directory:
  assumes "failed env task st" and "\<not> fs_fault env Rm [task_id task]"
  shows "\<exists>st'. save_task env now task st = Inr st'
           \<and> node_at st' (task_id task) = None
           \<and> \<not> has_metadata st' (task_id task)
           \<and> \<not> has_file st' (task_id task) ''snapshot.json''
           \<and> \<not> has_file st' (task_id task) ''image-small.png''
           \<and> \<not> has_file st' (task_id task) ''image-small''
           \<and> \<not> has_file st' (task_id task) ''image-large.png''
           \<and> \<not> has_file st' (task_id task) ''image-large''"
proof -
  let ?d = "task_id task"
  from assms(1) obtain loc st2 where t: "transaction env task st = Some (loc, st2)"
    and i: "incomplete loc"
    by (auto simp: failed_def split: option.splits)
  from t obtain st1 where m: "fs_mkdir env ?d st = Inr st1"
    and d: "download env task fileFormats init_locals st1 = (loc, st2)"
    by (auto simp: transaction_def split: sum.splits)
  from m d i have s: "save_task env now task st = Inr (cleanup env ?d st2)"
    by (simp add: save_task_def)
  from transaction_store[OF t] obtain fs where "node_at st2 ?d = Some (Dir fs)" by blast
  from cleanup_removes[OF assms(2) this] have n: "node_at (cleanup env ?d st2) ?d = None" .
  from s n absent_has_nothing[OF n] show ?thesis by blast
qed

text \<open>The large image of \<open>T2\<close> is missing on the remote: no directory \<open>T2\<close> is left.\<close>

theorem failed_transaction_witness:
  "failed env_no_large task2 None
   \<and> \<not> fs_fault env_no_large Rm [''T2'']
   \<and> save_task env_no_large (clock0 0) task2 None = Inr (Some [])
   \<and> (\<exists>st'. save_task env_no_large (clock0 0) task2 None = Inr st'
           \<and> node_at st' ''T2'' = None
           \<and> \<not> has_metadata st' ''T2''
           \<and> \<not> has_file st' ''T2'' ''snapshot.json''
           \<and> \<not> has_file st' ''T2'' ''image-small.png''
           \<and> \<not> has_file st' ''T2'' ''image-small''
           \<and> \<not> has_file st' ''T2'' ''image-large.png''
           \<and> \<not> has_file st' ''T2'' ''image-large'')"
proof -
  have f: "failed env_no_large task2 None" by code_simp
  have rm: "\<not> fs_fault env_no_large Rm [''T2'']"
    by (simp add: env_no_large_def env_ok_def no_fault_def)
  then have rm': "\<not> fs_fault env_no_large Rm [task_id task2]" by (simp add: task2_def)
  have run: "save_task env_no_large (clock0 0) task2 None = Inr (Some [])" by code_simp
  from failed_transaction_removes_directory[OF f rm', of "clock0 0"]
  have "\<exists>st'. save_task env_no_large (clock0 0) task2 None = Inr st'
           \<and> node_at st' ''T2'' = None
           \<and> \<not> has_metadata st' ''T2''
           \<and> \<not> has_file st' ''T2'' ''snapshot.json''
           \<and> \<not> has_file st' ''T2'' ''image-small.png''
           \<and> \<not> has_file st' ''T2'' ''image-small''
           \<and> \<not> has_file st' ''T2'' ''image-large.png''
           \<and> \<not> has_file st' ''T2'' ''image-large''"
    by (simp add: task2_def)
  with f rm run show ?thesis by blast
qed

text \<open>
  The directory is not put back into the state before the transaction, and it is not
  always removed. \<open>T1\<close> holds a committed snapshot when its fetches fail: the whole
  directory is removed, the earlier snapshot with it. For \<open>T2\<close> the snapshot arrives, the
  small image does not, and the removal fails: the directory keeps \<open>snapshot.json\<close>.
\<close>

theorem failed_transaction_counterexample:
  "saveSnapshots env_partial clock0 [task1, task2] (committed_at ''2024-12-31T00:00:00.000Z'')
     = Inr store_T2_left
   \<and> has_metadata (committed_at ''2024-12-31T00:00:00.000Z'') ''T1''
   \<and> has_artifacts (committed_at ''2024-12-31T00:00:00.000Z'') ''T1''
   \<and> node_at store_T2_left ''T1'' = None
   \<and> has_file store_T2_left ''T2'' ''snapshot.json''"
proof -
  have "saveSnapshots env_partial clock0 [task1, task2] (committed_at ''2024-12-31T00:00:00.000Z'')
     = Inr store_T2_left" by code_simp
  moreover have "has_metadata (committed_at ''2024-12-31T00:00:00.000Z'') ''T1''" by code_simp
  moreover have "has_artifacts (committed_at ''2024-12-31T00:00:00.000Z'') ''T1''" by code_simp
  moreover have "node_at store_T2_left ''T1'' = None" by code_simp
  moreover have "has_file store_T2_left ''T2'' ''snapshot.json''" by code_simp
  ultimately show ?thesis by blast
qed

section \<open>What makes a refresh fail\<close>




section \<open>The refresh response and the local listing\<close>




section \<open>The display mode\<close>



section \<open>Fetching a task again\<close>

text \<open>
  C7. Two committed transactions of the same task, with the same responses of the remote
  for it (at any two times, from any two stores, with any faults on the way that let both
  commit), write metadata records that are equal but for the value of \<open>lastUpdated\<close>:
  the second is the first with \<open>lastUpdated\<close> replaced.
\<close>

theorem refetch_identical_record:
  assumes "committed env1 task st1" and "save_task env1 now1 task st1 = Inr st1'"
    and "committed env2 task st2" and "save_task env2 now2 task st2 = Inr st2'"
    and "getSharingTaskExecutionFile env2 (task_id task)
           = getSharingTaskExecutionFile env1 (task_id task)"
  shows "\<exists>m1 m2. file_content st1' (task_id task) ''metadata.json'' = Some (JsonText (JObj m1))
           \<and> file_content st2' (task_id task) ''metadata.json'' = Some (JsonText (JObj m2))
           \<and> m2 = AList.update ''lastUpdated'' (JStr now2) m1"
proof -
  from committed_record[OF assms(1,2)] obtain r1 where
    r1: "getSharingTaskExecutionFile env1 (task_id task) executionId ''snapshot'' = Inr r1"
    and f1: "file_content st1' (task_id task) ''metadata.json''
                 = Some (JsonText (enhancedMetadata task (Some (data r1)) now1))"
    by blast
  from committed_record[OF assms(3,4)] obtain r2 where
    r2: "getSharingTaskExecutionFile env2 (task_id task) executionId ''snapshot'' = Inr r2"
    and f2: "file_content st2' (task_id task) ''metadata.json''
                 = Some (JsonText (enhancedMetadata task (Some (data r2)) now2))"
    by blast
  from r1 r2 assms(5) have "r2 = r1" by simp
  with f2 have f2': "file_content st2' (task_id task) ''metadata.json''
                 = Some (JsonText (enhancedMetadata task (Some (data r1)) now2))" by simp
  obtain m1 where m1: "enhancedMetadata task (Some (data r1)) now1 = JObj m1"
    by (simp add: enhancedMetadata_def Let_def)
  have "enhancedMetadata task (Some (data r1)) now2 = JObj (AList.update ''lastUpdated'' (JStr now2) m1)"
    using m1 by (auto simp: enhancedMetadata_def Let_def)
  with f1 f2' m1 show ?thesis by simp
qed

text \<open>Task \<open>T1\<close> fetched on two days, the second time over the result of the first.\<close>

theorem refetch_witness:
  "committed env_ok task1 None
   \<and> save_task env_ok ''2025-01-01T00:00:00.000Z'' task1 None
       = Inr (committed_at ''2025-01-01T00:00:00.000Z'')
   \<and> committed env_ok task1 (committed_at ''2025-01-01T00:00:00.000Z'')
   \<and> save_task env_ok ''2025-01-02T00:00:00.000Z'' task1 (committed_at ''2025-01-01T00:00:00.000Z'')
       = Inr (committed_at ''2025-01-02T00:00:00.000Z'')
   \<and> (\<exists>m1 m2.
         file_content (committed_at ''2025-01-01T00:00:00.000Z'') ''T1'' ''metadata.json''
           = Some (JsonText (JObj m1))
       \<and> file_content (committed_at ''2025-01-02T00:00:00.000Z'') ''T1'' ''metadata.json''
           = Some (JsonText (JObj m2))
       \<and> m2 = AList.update ''lastUpdated'' (JStr ''2025-01-02T00:00:00.000Z'') m1)"
proof -
  have c1: "committed env_ok task1 None" by code_simp
  have r1: "save_task env_ok ''2025-01-01T00:00:00.000Z'' task1 None
       = Inr (committed_at ''2025-01-01T00:00:00.000Z'')" by code_simp
  have c2: "committed env_ok task1 (committed_at ''2025-01-01T00:00:00.000Z'')" by code_simp
  have r2: "save_task env_ok ''2025-01-02T00:00:00.000Z'' task1 (committed_at ''2025-01-01T00:00:00.000Z'')
       = Inr (committed_at ''2025-01-02T00:00:00.000Z'')" by code_simp
  from refetch_identical_record[OF c1 r1 c2 r2 refl]
  have "\<exists>m1 m2.
         file_content (committed_at ''2025-01-01T00:00:00.000Z'') ''T1'' ''metadata.json''
           = Some (JsonText (JObj m1))
       \<and> file_content (committed_at ''2025-01-02T00:00:00.000Z'') ''T1'' ''metadata.json''
           = Some (JsonText (JObj m2))
       \<and> m2 = AList.update ''lastUpdated'' (JStr ''2025-01-02T00:00:00.000Z'') m1"
    by (simp add: task1_def)
  with c1 r1 c2 r2 show ?thesis by blast
qed

section \<open>A corrupt entry in the local listing\<close>

text \<open>
  C8. A directory whose \<open>metadata.json\<close> cannot be read, does not exist, is not JSON
  or is the JSON \<open>null\<close> changes nothing in the answer of GET /get-local-snapshots: the
  answer is the one the store gives without that directory. When the root can be accessed and listed the answer is 200,
  none of its entries comes from the corrupt directory, and every directory with a readable
  record that parses to a value other than \<open>null\<close> has its entry in it.
\<close>

theorem corrupt_entry_isolated:
  assumes "fs_fault env ReadFile [n, ''metadata.json'']
           \<or> file_content (Some ns) n ''metadata.json'' = None
           \<or> (\<exists>b. file_content (Some ns) n ''metadata.json'' = Some (Raw b))
           \<or> file_content (Some ns) n ''metadata.json'' = Some (JsonText JNull)"
  shows "get_local_snapshots env (Some (AList.delete n ns)) = get_local_snapshots env (Some ns)
     \<and> (\<not> fs_fault env Access [] \<and> \<not> fs_fault env Readdir [] \<longrightarrow>
          (\<exists>es. get_local_snapshots env (Some ns) = Status200 es
             \<and> (\<forall>e\<in>set es. \<exists>m. m \<noteq> n \<and> read_local env (Some ns) m = Inr e)
             \<and> (\<forall>m fs j. (m, Dir fs) \<in> set ns
                   \<and> \<not> fs_fault env ReadFile [m, ''metadata.json'']
                   \<and> file_content (Some ns) m ''metadata.json'' = Some (JsonText j)
                   \<and> j \<noteq> JNull
                 \<longrightarrow> (\<exists>e. local_entry m j = Inr e \<and> e \<in> set es))))"
proof -
  let ?st = "Some ns"
  let ?es = "local_loop env ?st (filter isDirectory ns) []"
  from read_local_corrupt[OF assms] obtain err where c: "read_local env ?st n = Inl err" ..
  have "\<forall>f\<in>set (filter isDirectory (AList.delete n ns)).
          read_local env (Some (AList.delete n ns)) (fst f) = read_local env ?st (fst f)"
    by (auto simp: AList.delete_eq intro!: read_local_delete[unfolded AList.delete_eq])
  from local_loop_cong[OF this]
  have "local_loop env (Some (AList.delete n ns)) (filter isDirectory (AList.delete n ns)) []
          = local_loop env ?st (filter isDirectory (AList.delete n ns)) []" .
  also have "\<dots> = ?es" by (rule local_loop_skip[OF c])
  finally have same: "get_local_snapshots env (Some (AList.delete n ns)) = get_local_snapshots env ?st"
    by (simp add: get_local_snapshots_def fs_access_def fs_readdir_def)
  have listed: "\<exists>es. get_local_snapshots env ?st = Status200 es
             \<and> (\<forall>e\<in>set es. \<exists>m. m \<noteq> n \<and> read_local env ?st m = Inr e)
             \<and> (\<forall>m fs j. (m, Dir fs) \<in> set ns
                   \<and> \<not> fs_fault env ReadFile [m, ''metadata.json'']
                   \<and> file_content ?st m ''metadata.json'' = Some (JsonText j)
                   \<and> j \<noteq> JNull
                 \<longrightarrow> (\<exists>e. local_entry m j = Inr e \<and> e \<in> set es))"
    if ok: "\<not> fs_fault env Access [] \<and> \<not> fs_fault env Readdir []"
  proof -
    from ok have l: "get_local_snapshots env ?st = Status200 ?es"
      by (simp add: get_local_snapshots_def fs_access_def fs_readdir_def)
    have origin: "\<forall>e\<in>set ?es. \<exists>m. m \<noteq> n \<and> read_local env ?st m = Inr e"
    proof
      fix e assume "e \<in> set ?es"
      then obtain f where "read_local env ?st (fst f) = Inr e" by (auto simp: local_loop_set)
      with c show "\<exists>m. m \<noteq> n \<and> read_local env ?st m = Inr e" by (intro exI[of _ "fst f"]) auto
    qed
    have valid: "\<forall>m fs j. (m, Dir fs) \<in> set ns
                   \<and> \<not> fs_fault env ReadFile [m, ''metadata.json'']
                   \<and> file_content ?st m ''metadata.json'' = Some (JsonText j)
                   \<and> j \<noteq> JNull
                 \<longrightarrow> (\<exists>e. local_entry m j = Inr e \<and> e \<in> set ?es)"
    proof (intro allI impI)
      fix m fs j
      assume a: "(m, Dir fs) \<in> set ns
                   \<and> \<not> fs_fault env ReadFile [m, ''metadata.json'']
                   \<and> file_content ?st m ''metadata.json'' = Some (JsonText j)
                   \<and> j \<noteq> JNull"
      then obtain e where e: "local_entry m j = Inr e" by (auto simp: local_entry_def)
      from a have "read_local env ?st m = local_entry m j" by (simp add: read_local_readable)
      with e have r: "read_local env ?st m = Inr e" by simp
      from a have "(m, Dir fs) \<in> set (filter isDirectory ns)" by (simp add: isDirectory_def)
      with r have "e \<in> set ?es" by (force simp: local_loop_set)
      with e show "\<exists>e. local_entry m j = Inr e \<and> e \<in> set ?es" by blast
    qed
    from l origin valid show ?thesis by blast
  qed
  from same listed show ?thesis by blast
qed

text \<open>A directory with broken metadata beside a valid one and a plain file.\<close>

theorem corrupt_entry_witness:
  "file_content (Some entries_mixed) ''bad'' ''metadata.json'' = Some (Raw ''{oops'')
   \<and> get_local_snapshots env_ok (Some (AList.delete ''bad'' entries_mixed))
       = get_local_snapshots env_ok (Some entries_mixed)
   \<and> get_local_snapshots env_ok (Some entries_mixed) = Status200 [entry_old]"
proof -
  have bad: "file_content (Some entries_mixed) ''bad'' ''metadata.json'' = Some (Raw ''{oops'')"
    by code_simp
  then have "fs_fault env_ok ReadFile [''bad'', ''metadata.json'']
           \<or> file_content (Some entries_mixed) ''bad'' ''metadata.json'' = None
           \<or> (\<exists>b. file_content (Some entries_mixed) ''bad'' ''metadata.json'' = Some (Raw b))
           \<or> file_content (Some entries_mixed) ''bad'' ''metadata.json'' = Some (JsonText JNull)"
    by simp
  from corrupt_entry_isolated[OF this]
  have same: "get_local_snapshots env_ok (Some (AList.delete ''bad'' entries_mixed))
       = get_local_snapshots env_ok (Some entries_mixed)" by blast
  have "get_local_snapshots env_ok (Some entries_mixed) = Status200 [entry_old]"
    by code_simp
  with bad same show ?thesis by blast
qed

section \<open>The local listing when the store is absent\<close>

text \<open>
  C9. If \<open>public/snapshots\<close> does not exist, GET /get-local-snapshots answers 200 with the
  empty array, whatever the environment.
\<close>

theorem local_snapshots_absent_root:
  "get_local_snapshots env None = Status200 []"
  by (simp add: get_local_snapshots_def fs_access_def)

text \<open>The answer in the environment without faults.\<close>

theorem local_snapshots_absent_root_witness:
  "get_local_snapshots env_ok None = Status200 []"
  by (rule local_snapshots_absent_root)

section \<open>Defaults of the local listing\<close>

text \<open>
  C10. An entry of the local listing made from a metadata record without \<open>id\<close> (or with
  a falsy one) has the directory name as its \<open>id\<close>; made from a record without \<open>name\<close>
  (or with a falsy one) it has \<open>Snapshot\<close>, a space and the directory name as its
  \<open>name\<close>.
\<close>

theorem local_entry_defaults:
  assumes "read_local env st folder = Inr e"
    and "file_content st folder ''metadata.json'' = Some (JsonText metadata)"
  shows "(\<not> present (get_prop metadata ''id'') \<longrightarrow> entry_id e = Some (JStr folder))
       \<and> (\<not> present (get_prop metadata ''name'')
            \<longrightarrow> entry_name e = Some (JStr (''Snapshot '' @ folder)))"
proof -
  from read_local_Inr[OF assms(1)] assms(2) have l: "local_entry folder metadata = Inr e" by auto
  then have nn: "metadata \<noteq> JNull" by (auto simp: local_entry_def split: if_splits)
  with l have i: "entry_id e = Some (or_else (get_prop metadata ''id'') (JStr folder))"
    and n: "entry_name e = Some (or_else (get_prop metadata ''name'') (JStr (''Snapshot '' @ folder)))"
    by (auto simp: local_entry_def)
  show ?thesis by (simp add: i n or_else_absent)
qed

text \<open>The record \<open>{}\<close> in the directory \<open>abc\<close>.\<close>

theorem local_entry_defaults_witness:
  "read_local env_ok store_bare ''abc'' = Inr entry_bare
   \<and> file_content store_bare ''abc'' ''metadata.json'' = Some (JsonText (JObj []))
   \<and> entry_id entry_bare = Some (JStr ''abc'')
   \<and> entry_name entry_bare = Some (JStr ''Snapshot abc'')"
proof -
  have r: "read_local env_ok store_bare ''abc'' = Inr entry_bare" by code_simp
  have f: "file_content store_bare ''abc'' ''metadata.json'' = Some (JsonText (JObj []))"
    by code_simp
  have a: "\<not> present (get_prop (JObj []) ''id'')" "\<not> present (get_prop (JObj []) ''name'')"
    by (simp_all add: present_def get_prop_def)
  from local_entry_defaults[OF r f] a
  have "entry_id entry_bare = Some (JStr ''abc'')"
    and "entry_name entry_bare = Some (JStr ''Snapshot abc'')" by simp_all
  with r f show ?thesis by blast
qed

text \<open>The default of \<open>name\<close> is not the directory name: for \<open>abc\<close> it is \<open>Snapshot abc\<close>.\<close>

theorem name_default_counterexample:
  "get_local_snapshots env_ok store_bare = Status200 [entry_bare]
   \<and> entry_name entry_bare = Some (JStr ''Snapshot abc'')
   \<and> entry_name entry_bare \<noteq> Some (JStr ''abc'')"
proof -
  have "get_local_snapshots env_ok store_bare = Status200 [entry_bare]" by code_simp
  moreover have "entry_name entry_bare = Some (JStr ''Snapshot abc'')" by code_simp
  moreover have "entry_name entry_bare \<noteq> Some (JStr ''abc'')" by (simp add: entry_bare_def)
  ultimately show ?thesis by blast
qed

end
